theory Spec2Isabelle
  imports Main "HOL-Library.Sublist"
begin

section \<open>The group chat component (GroupChat.tsx)\<close>

text \<open>
  The component keeps a message list, the text of the input box and a connection status as
  React state, and two refs: the current WebSocket and the handle of the reconnection
  timer. Everything the component does happens inside callbacks that the browser runs one
  at a time: the effect and its cleanup, the completion of the history request, the four
  handlers of a WebSocket, a timer callback and the form's submit handler. The model is
  that event loop: one record for the state of the component together with the objects it
  created (sockets, timers, requests), one function per callback of the source, and a
  function \<open>step\<close> that dispatches an event to its callback.
\<close>

subsection \<open>Data\<close>

text \<open>A JavaScript string is a sequence of UTF-16 code units.\<close>

type_synonym js_string = "nat list"

record user_info =
  name :: js_string
  profile_picture :: "js_string option"

text \<open>The interface \<open>Message\<close>; its field \<open>id\<close> is called \<open>msg_id\<close> here.\<close>

record Message =
  msg_id :: int
  content :: js_string
  user_id :: int
  created_at :: js_string
  user :: user_info

datatype ConnectionStatus = Connecting | Connected | Disconnected | Error

text \<open>
  A WebSocket object as far as the component can tell one from another: the group and the
  token of its URL, and its ready state. The handlers assigned to it are closures of the
  call of \<open>connectWebSocket\<close> that created it, so the group of the URL is also the group
  with which its close handler reconnects.
\<close>

datatype ReadyState = CONNECTING | OPEN | CLOSING | CLOSED

record WebSocket =
  ws_group :: nat
  ws_token :: js_string
  readyState :: ReadyState

text \<open>A pending timer: its handle, its delay in milliseconds, the group of its callback.\<close>

record Timeout =
  timer_id :: nat
  delay :: nat
  timer_group :: nat

text \<open>The values handed to \<open>JSON.stringify\<close>.\<close>

datatype json = JString js_string | JObject "(string \<times> json) list"

text \<open>
  The state: the three \<open>useState\<close> cells, the two refs, the token in local storage, and
  the runtime objects created so far. A socket is named by its position in \<open>sockets\<close>;
  \<open>timers\<close> holds the timers that are pending; \<open>sent\<close> logs each frame that a socket
  took for transmission; \<open>fetch_log\<close> logs each history request issued and
  \<open>fetch_settled\<close> counts those that have completed.
\<close>

record GroupChat =
  messages :: "Message list"
  newMessage :: js_string
  connectionStatus :: ConnectionStatus
  wsRef :: "nat option"
  reconnectTimeoutRef :: "nat option"
  token :: "js_string option"
  sockets :: "WebSocket list"
  timers :: "Timeout list"
  next_timer :: nat
  sent :: "(nat \<times> json) list"
  fetch_log :: "(nat \<times> js_string option) list"
  fetch_settled :: nat

text \<open>
  The state at mount. Timer handles are positive, so the source's test
  \<open>if (reconnectTimeoutRef.current)\<close> is the test that the ref is not null.
\<close>

definition init :: "js_string option \<Rightarrow> GroupChat" where
  "init tok = \<lparr>messages = [], newMessage = [], connectionStatus = Connecting,
     wsRef = None, reconnectTimeoutRef = None, token = tok, sockets = [], timers = [],
     next_timer = 1, sent = [], fetch_log = [], fetch_settled = 0\<rparr>"

subsection \<open>The runtime calls the component makes\<close>

text \<open>
  \<open>close()\<close> on a socket starts the closing handshake and returns; the close event is
  delivered later. On a socket that is closing or closed it does nothing.
\<close>

definition ws_close :: "nat \<Rightarrow> WebSocket list \<Rightarrow> WebSocket list" where
  "ws_close i socks =
     (if i < length socks \<and> (readyState (socks ! i) = CONNECTING \<or> readyState (socks ! i) = OPEN)
      then socks[i := (socks ! i)\<lparr>readyState := CLOSING\<rparr>]
      else socks)"

definition set_ready :: "nat \<Rightarrow> ReadyState \<Rightarrow> WebSocket list \<Rightarrow> WebSocket list" where
  "set_ready i r socks = socks[i := (socks ! i)\<lparr>readyState := r\<rparr>]"

definition clearTimeout :: "nat \<Rightarrow> Timeout list \<Rightarrow> Timeout list" where
  "clearTimeout t ts = filter (\<lambda>x. timer_id x \<noteq> t) ts"

definition setTimeout :: "nat \<Rightarrow> nat \<Rightarrow> GroupChat \<Rightarrow> nat \<times> GroupChat" where
  "setTimeout g ms s =
     (next_timer s,
      s\<lparr>timers := timers s @ [\<lparr>timer_id = next_timer s, delay = ms, timer_group = g\<rparr>],
        next_timer := Suc (next_timer s)\<rparr>)"

text \<open>\<open>String.prototype.trim\<close>: white space and line terminators of ECMAScript.\<close>

definition is_white_space :: "nat \<Rightarrow> bool" where
  "is_white_space c \<longleftrightarrow>
     c = 0x9 \<or> c = 0xA \<or> c = 0xB \<or> c = 0xC \<or> c = 0xD \<or> c = 0x20 \<or> c = 0xA0 \<or>
     c = 0x1680 \<or> (0x2000 \<le> c \<and> c \<le> 0x200A) \<or> c = 0x2028 \<or> c = 0x2029 \<or>
     c = 0x202F \<or> c = 0x205F \<or> c = 0x3000 \<or> c = 0xFEFF"

definition js_trim :: "js_string \<Rightarrow> js_string" where
  "js_trim t = rev (dropWhile is_white_space (rev (dropWhile is_white_space t)))"

subsection \<open>The callbacks of the source\<close>

text \<open>
  \<open>fetchInitialMessages\<close> up to its \<open>await\<close>: the request is issued with the group and
  whatever token local storage holds.
\<close>

definition fetchInitialMessages :: "nat \<Rightarrow> GroupChat \<Rightarrow> GroupChat" where
  "fetchInitialMessages g s = s\<lparr>fetch_log := fetch_log s @ [(g, token s)]\<rparr>"

text \<open>
  The rest of \<open>fetchInitialMessages\<close>, run when the request completes. The request is
  rejected (\<open>NetworkError\<close>) or answers with a status (\<open>ok\<close> or not) and a body that
  \<open>response.json()\<close> decodes (\<open>Some\<close>) or rejects (\<open>None\<close>). Every rejection lands in
  the \<open>catch\<close>, which only logs.
\<close>

datatype fetch_outcome = NetworkError | Response bool "Message list option"

fun fetchInitialMessages_settled :: "fetch_outcome \<Rightarrow> GroupChat \<Rightarrow> GroupChat" where
  "fetchInitialMessages_settled NetworkError s = s"
| "fetchInitialMessages_settled (Response ok body) s =
     (if ok then (case body of Some data \<Rightarrow> s\<lparr>messages := data\<rparr> | None \<Rightarrow> s) else s)"

text \<open>\<open>connectWebSocket\<close> of the render with group \<open>g\<close>. \<open>!token\<close> holds of null and of "".\<close>

definition connectWebSocket :: "nat \<Rightarrow> GroupChat \<Rightarrow> GroupChat" where
  "connectWebSocket g s =
     (case token s of
        None \<Rightarrow> s\<lparr>connectionStatus := Error\<rparr>
      | Some t \<Rightarrow>
          if t = [] then s\<lparr>connectionStatus := Error\<rparr>
          else
            let s1 = (case wsRef s of
                        Some i \<Rightarrow> s\<lparr>sockets := ws_close i (sockets s)\<rparr>
                      | None \<Rightarrow> s);
                s2 = s1\<lparr>connectionStatus := Connecting\<rparr>;
                ws = length (sockets s2);
                s3 = s2\<lparr>sockets := sockets s2 @
                        [\<lparr>ws_group = g, ws_token = t, readyState = CONNECTING\<rparr>]\<rparr>
            in s3\<lparr>wsRef := Some ws\<rparr>)"

definition ws_onopen :: "GroupChat \<Rightarrow> GroupChat" where
  "ws_onopen s =
     (let s1 = s\<lparr>connectionStatus := Connected\<rparr>
      in case reconnectTimeoutRef s1 of
           Some t \<Rightarrow> s1\<lparr>timers := clearTimeout t (timers s1), reconnectTimeoutRef := None\<rparr>
         | None \<Rightarrow> s1)"

text \<open>The updater passed to \<open>setMessages\<close> in \<open>ws.onmessage\<close>.\<close>

definition avoid_duplicates :: "Message \<Rightarrow> Message list \<Rightarrow> Message list" where
  "avoid_duplicates newMsg prev =
     (if list_ex (\<lambda>m. msg_id m = msg_id newMsg) prev then prev else prev @ [newMsg])"

text \<open>
  \<open>ws.onmessage\<close>. The frame decodes to a message (\<open>Some\<close>), or \<open>JSON.parse\<close> throws
  (\<open>None\<close>) and the handler ends before \<open>setMessages\<close>.
\<close>

definition ws_onmessage :: "Message option \<Rightarrow> GroupChat \<Rightarrow> GroupChat" where
  "ws_onmessage frame s =
     (case frame of
        None \<Rightarrow> s
      | Some newMsg \<Rightarrow> s\<lparr>messages := avoid_duplicates newMsg (messages s)\<rparr>)"

definition ws_onerror :: "GroupChat \<Rightarrow> GroupChat" where
  "ws_onerror s = s\<lparr>connectionStatus := Error\<rparr>"

text \<open>\<open>ws.onclose\<close> of a socket created by \<open>connectWebSocket\<close> of group \<open>g\<close>.\<close>

definition ws_onclose :: "nat \<Rightarrow> GroupChat \<Rightarrow> GroupChat" where
  "ws_onclose g s =
     (let s1 = s\<lparr>connectionStatus := Disconnected, wsRef := None\<rparr>;
          (t, s2) = setTimeout g 3000 s1
      in s2\<lparr>reconnectTimeoutRef := Some t\<rparr>)"

text \<open>The effect and the function it returns. The cleanup leaves both refs as they are.\<close>

definition useEffect_run :: "nat \<Rightarrow> GroupChat \<Rightarrow> GroupChat" where
  "useEffect_run g s = connectWebSocket g (fetchInitialMessages g s)"

definition useEffect_cleanup :: "GroupChat \<Rightarrow> GroupChat" where
  "useEffect_cleanup s =
     (let s1 = (case wsRef s of
                  Some i \<Rightarrow> s\<lparr>sockets := ws_close i (sockets s)\<rparr>
                | None \<Rightarrow> s)
      in case reconnectTimeoutRef s1 of
           Some t \<Rightarrow> s1\<lparr>timers := clearTimeout t (timers s1)\<rparr>
         | None \<Rightarrow> s1)"

text \<open>
  \<open>send(data)\<close> on a socket. It throws \<open>InvalidStateError\<close> while the socket is still
  connecting; an open socket takes the frame for transmission, which \<open>sent\<close> logs; a
  socket that is closing or closed drops the frame without throwing.
\<close>

datatype js_error = InvalidStateError

definition ws_send :: "nat \<Rightarrow> json \<Rightarrow> GroupChat \<Rightarrow> js_error + GroupChat" where
  "ws_send i frame s =
     (if i < length (sockets s)
      then (case readyState (sockets s ! i) of
              CONNECTING \<Rightarrow> Inl InvalidStateError
            | OPEN \<Rightarrow> Inr (s\<lparr>sent := sent s @ [(i, frame)]\<rparr>)
            | CLOSING \<Rightarrow> Inr s
            | CLOSED \<Rightarrow> Inr s)
      else Inr s)"

text \<open>
  \<open>handleSendMessage\<close>. Past the guard it calls \<open>send\<close> on the socket in \<open>wsRef\<close> with
  the serialisation of \<open>{content: newMessage}\<close> and then clears the input box; when
  \<open>send\<close> throws, the handler ends there and the exception leaves it (\<open>Inl\<close>).
\<close>

definition handleSendMessage :: "GroupChat \<Rightarrow> js_error + GroupChat" where
  "handleSendMessage s =
     (if js_trim (newMessage s) = [] \<or> wsRef s = None \<or> connectionStatus s \<noteq> Connected
      then Inr s
      else case wsRef s of
             None \<Rightarrow> Inr s
           | Some i \<Rightarrow>
               (case ws_send i (JObject [(''content'', JString (newMessage s))]) s of
                  Inl err \<Rightarrow> Inl err
                | Inr s1 \<Rightarrow> Inr (s1\<lparr>newMessage := []\<rparr>)))"

text \<open>
  The form's submit event: React runs the handler; an exception that leaves the handler
  is reported by the runtime, and the state stays as it was.
\<close>

definition onSubmit :: "GroupChat \<Rightarrow> GroupChat" where
  "onSubmit s = (case handleSendMessage s of Inl err \<Rightarrow> s | Inr s1 \<Rightarrow> s1)"

subsection \<open>The event loop\<close>

text \<open>
  What the browser can deliver. An open event comes to a connecting socket, a message to
  an open one, an error or a close event to one that is not closed yet (and a close event
  closes it), a timer fires while it is pending, a history request completes while one is
  outstanding. An event that cannot occur in the current state changes nothing.
\<close>

datatype event =
    EffectRun nat
  | EffectCleanup
  | FetchSettled fetch_outcome
  | WsOpen nat
  | WsMessage nat "Message option"
  | WsError nat
  | WsClose nat
  | TimerFired nat
  | InputChange js_string
  | Submit

fun step :: "event \<Rightarrow> GroupChat \<Rightarrow> GroupChat" where
  "step (EffectRun g) s = useEffect_run g s"
| "step EffectCleanup s = useEffect_cleanup s"
| "step (FetchSettled r) s =
     (if fetch_settled s < length (fetch_log s)
      then fetchInitialMessages_settled r (s\<lparr>fetch_settled := Suc (fetch_settled s)\<rparr>)
      else s)"
| "step (WsOpen i) s =
     (if i < length (sockets s) \<and> readyState (sockets s ! i) = CONNECTING
      then ws_onopen (s\<lparr>sockets := set_ready i OPEN (sockets s)\<rparr>)
      else s)"
| "step (WsMessage i frame) s =
     (if i < length (sockets s) \<and> readyState (sockets s ! i) = OPEN
      then ws_onmessage frame s
      else s)"
| "step (WsError i) s =
     (if i < length (sockets s) \<and> readyState (sockets s ! i) \<noteq> CLOSED
      then ws_onerror s
      else s)"
| "step (WsClose i) s =
     (if i < length (sockets s) \<and> readyState (sockets s ! i) \<noteq> CLOSED
      then ws_onclose (ws_group (sockets s ! i)) (s\<lparr>sockets := set_ready i CLOSED (sockets s)\<rparr>)
      else s)"
| "step (TimerFired t) s =
     (case find (\<lambda>x. timer_id x = t) (timers s) of
        None \<Rightarrow> s
      | Some x \<Rightarrow> connectWebSocket (timer_group x) (s\<lparr>timers := clearTimeout t (timers s)\<rparr>))"
| "step (InputChange v) s = s\<lparr>newMessage := v\<rparr>"
| "step Submit s = onSubmit s"

definition run :: "event list \<Rightarrow> GroupChat \<Rightarrow> GroupChat" where
  "run evs s = fold step evs s"

subsection \<open>Reading an event sequence\<close>


fun installs_history :: "event \<Rightarrow> bool" where
  "installs_history (FetchSettled (Response True (Some data))) = True"
| "installs_history _ = False"

fun live_of :: "event \<Rightarrow> Message list" where
  "live_of (WsMessage i (Some m)) = [m]"
| "live_of _ = []"



fun is_activation :: "event \<Rightarrow> bool" where
  "is_activation (EffectRun g) = True"
| "is_activation _ = False"

text \<open>A message with a given identifier and text, for the concrete runs below.\<close>

definition example_message :: "int \<Rightarrow> js_string \<Rightarrow> Message" where
  "example_message k txt =
     \<lparr>msg_id = k, content = txt, user_id = 7, created_at = [],
      user = \<lparr>name = [], profile_picture = None\<rparr>\<rparr>"

text \<open>
  The component after it was mounted for group 42 with the token \<open>t\<close> in local storage
  and its first socket has opened.
\<close>

definition example_session :: GroupChat where
  "example_session = run [EffectRun 42, WsOpen 0] (init (Some [116]))"

text \<open>
  What the two refs are meant to track: a socket that is not closed yet is the one in
  \<open>wsRef\<close> and no timer is pending beside it; at most one timer is pending, and then
  \<open>wsRef\<close> is null.
\<close>

definition one_connection :: "GroupChat \<Rightarrow> bool" where
  "one_connection s \<longleftrightarrow>
     (\<forall>i < length (sockets s). readyState (sockets s ! i) \<noteq> CLOSED \<longrightarrow>
        wsRef s = Some i \<and> timers s = [])
     \<and> length (timers s) \<le> 1
     \<and> (timers s \<noteq> [] \<longrightarrow> wsRef s = None)"

section \<open>Basic facts\<close>

lemmas handler_defs =
  useEffect_run_def useEffect_cleanup_def connectWebSocket_def fetchInitialMessages_def
  ws_onopen_def ws_onmessage_def ws_onerror_def ws_onclose_def setTimeout_def

text \<open>A submit touches the log of frames and the input box, and nothing else.\<close>

lemma onSubmit_changes:
  "onSubmit s = s \<or> onSubmit s = s\<lparr>newMessage := []\<rparr> \<or>
   (\<exists>i. onSubmit s =
      s\<lparr>sent := sent s @ [(i, JObject [(''content'', JString (newMessage s))])],
        newMessage := []\<rparr>)"
proof (cases "handleSendMessage s")
  case (Inl err)
  then show ?thesis by (simp add: onSubmit_def)
next
  case (Inr s1)
  then show ?thesis
    by (auto simp: onSubmit_def handleSendMessage_def ws_send_def
          split: if_splits option.splits ReadyState.splits)
qed

lemma onSubmit_frame [simp]:
  "messages (onSubmit s) = messages s" "fetch_log (onSubmit s) = fetch_log s"
  "sockets (onSubmit s) = sockets s" "timers (onSubmit s) = timers s"
  "wsRef (onSubmit s) = wsRef s"
  using onSubmit_changes [of s] by auto

lemma run_Nil: "run [] s = s"
  by (simp add: run_def)

lemma run_Cons: "run (e # evs) s = run evs (step e s)"
  by (simp add: run_def)


lemma list_ex_msg_id: "list_ex (\<lambda>m. msg_id m = k) prev \<longleftrightarrow> k \<in> msg_id ` set prev"
  by (auto simp: list_ex_iff)

lemma avoid_duplicates_eq:
  "avoid_duplicates newMsg prev =
     (if msg_id newMsg \<in> msg_id ` set prev then prev else prev @ [newMsg])"
  by (simp add: avoid_duplicates_def list_ex_msg_id)

text \<open>The only events that touch the message list are the two that are meant to.\<close>

lemma messages_step:
  "messages (step e s) =
     (case e of
        FetchSettled (Response True (Some data)) \<Rightarrow>
          if fetch_settled s < length (fetch_log s) then data else messages s
      | WsMessage i (Some m) \<Rightarrow>
          if i < length (sockets s) \<and> readyState (sockets s ! i) = OPEN
          then avoid_duplicates m (messages s) else messages s
      | _ \<Rightarrow> messages s)"
  by (cases e)
     (auto simp: handler_defs Let_def
           split: option.splits fetch_outcome.splits bool.splits prod.splits)

lemma fetch_log_settled: "fetch_log (fetchInitialMessages_settled r s) = fetch_log s"
  by (cases r) (auto split: option.splits)

lemma fetch_log_step:
  "fetch_log (step e s) =
     (case e of EffectRun g \<Rightarrow> fetch_log s @ [(g, token s)] | _ \<Rightarrow> fetch_log s)"
  by (cases e)
     (auto simp: handler_defs fetch_log_settled Let_def split: option.splits prod.splits)

section \<open>The message list\<close>













text \<open>
  The hypothesis on the history results is needed: the history request installs what the
  server answered as it is, without looking at the identifiers.
\<close>

lemma history_repeat_is_displayed:
  "map msg_id (messages (run
       [EffectRun 42,
        FetchSettled (Response True (Some [example_message 5 [97], example_message 5 [98]]))]
       (init (Some [116])))) = [5, 5]"
  by code_simp

text \<open>Without a history result in between, the list only grows, at its end.\<close>

lemma messages_step_extends:
  "\<not> installs_history e \<Longrightarrow>
   \<exists>ys. messages (step e s) = messages s @ ys \<and> subseq ys (live_of e)"
  by (auto simp: messages_step avoid_duplicates_eq
        split: event.splits option.splits fetch_outcome.splits bool.splits)

lemma messages_run_extends:
  "list_all (\<lambda>e. \<not> installs_history e) evs \<Longrightarrow>
   \<exists>ys. messages (run evs s) = messages s @ ys \<and> subseq ys (concat (map live_of evs))"
proof (induction evs arbitrary: s)
  case Nil
  then show ?case by (simp add: run_Nil)
next
  case (Cons e evs)
  from Cons.prems obtain ys1 where
    1: "messages (step e s) = messages s @ ys1" "subseq ys1 (live_of e)"
    using messages_step_extends [of e s] by auto
  from Cons.prems Cons.IH [of "step e s"] obtain ys2 where
    2: "messages (run evs (step e s)) = messages (step e s) @ ys2"
       "subseq ys2 (concat (map live_of evs))"
    by auto
  have "subseq (ys1 @ ys2) (live_of e @ concat (map live_of evs))"
    using 1(2) 2(2) by (rule list_emb_append_mono)
  with 1(1) 2(1) show ?case
    by (simp add: run_Cons)
qed

text \<open>Frames on an open socket: every identifier received is in the list afterwards.\<close>

lemma sockets_onmessage: "sockets (step (WsMessage i frame) s) = sockets s"
  by (simp add: ws_onmessage_def split: option.splits)

lemma ids_live_run:
  "i < length (sockets s) \<Longrightarrow> readyState (sockets s ! i) = OPEN \<Longrightarrow>
   msg_id ` set (messages (run (map (\<lambda>m. WsMessage i (Some m)) ms) s)) =
     msg_id ` set (messages s) \<union> msg_id ` set ms"
proof (induction ms arbitrary: s)
  case Nil
  then show ?case by (simp add: run_Nil)
next
  case (Cons m ms)
  let ?s' = "step (WsMessage i (Some m)) s"
  have "sockets ?s' = sockets s"
    by (rule sockets_onmessage)
  with Cons.prems have "i < length (sockets ?s')" "readyState (sockets ?s' ! i) = OPEN"
    by simp_all
  then have "msg_id ` set (messages (run (map (\<lambda>m. WsMessage i (Some m)) ms) ?s')) =
     msg_id ` set (messages ?s') \<union> msg_id ` set ms"
    by (rule Cons.IH)
  moreover have "msg_id ` set (messages ?s') = msg_id ` set (messages s) \<union> {msg_id m}"
    using Cons.prems by (auto simp: ws_onmessage_def avoid_duplicates_eq)
  ultimately show ?case
    by (simp add: run_Cons del: step.simps)
qed

text \<open>
  C2 (as amended). Live messages are appended in the order received: over any events
  among which no history result is installed, the list keeps what it held, in place, and
  grows at its end by live messages in their order of receipt; frames with identifiers
  \<open>ms\<close> received on an open socket leave every one of these identifiers in the list. A
  history result that is installed replaces the whole list, whatever live messages had
  been appended before; the live messages received after it follow it in order of receipt.
\<close>

theorem live_append_order:
  assumes "list_all (\<lambda>e. \<not> installs_history e) evs"
  shows "(\<exists>ys. messages (run evs s) = messages s @ ys \<and> subseq ys (concat (map live_of evs)))
       \<and> (fetch_settled s < length (fetch_log s) \<longrightarrow>
            (\<exists>ys. messages (run (FetchSettled (Response True (Some data)) # evs) s) = data @ ys
                \<and> subseq ys (concat (map live_of evs))))
       \<and> (i < length (sockets s) \<and> readyState (sockets s ! i) = OPEN \<longrightarrow>
            msg_id ` set (messages (run (map (\<lambda>m. WsMessage i (Some m)) ms) s)) =
              msg_id ` set (messages s) \<union> msg_id ` set ms)"
proof (intro conjI impI)
  show "\<exists>ys. messages (run evs s) = messages s @ ys \<and> subseq ys (concat (map live_of evs))"
    using assms by (rule messages_run_extends)
next
  assume f: "fetch_settled s < length (fetch_log s)"
  let ?s' = "step (FetchSettled (Response True (Some data))) s"
  have "messages ?s' = data"
    using f by (simp add: messages_step)
  with messages_run_extends [OF assms, of ?s']
  show "\<exists>ys. messages (run (FetchSettled (Response True (Some data)) # evs) s) = data @ ys
           \<and> subseq ys (concat (map live_of evs))"
    by (simp add: run_Cons del: step.simps)
next
  assume "i < length (sockets s) \<and> readyState (sockets s ! i) = OPEN"
  then show "msg_id ` set (messages (run (map (\<lambda>m. WsMessage i (Some m)) ms) s)) =
      msg_id ` set (messages s) \<union> msg_id ` set ms"
    by (simp add: ids_live_run)
qed

text \<open>
  A run of it: the history \<open>[1, 2]\<close> is installed, then identifiers 3, 2 and 4 arrive on
  the live connection.
\<close>

theorem live_append_order_witness:
  "list_all (\<lambda>e. \<not> installs_history e)
     [WsMessage 0 (Some (example_message 3 [99])), WsMessage 0 (Some (example_message 2 [120])),
      WsMessage 0 (Some (example_message 4 [100]))]
   \<and> fetch_settled example_session < length (fetch_log example_session)
   \<and> (\<exists>ys. messages (run
         (FetchSettled (Response True (Some [example_message 1 [97], example_message 2 [98]])) #
          [WsMessage 0 (Some (example_message 3 [99])), WsMessage 0 (Some (example_message 2 [120])),
           WsMessage 0 (Some (example_message 4 [100]))])
         example_session)
        = [example_message 1 [97], example_message 2 [98]] @ ys
        \<and> subseq ys (concat (map live_of
            [WsMessage 0 (Some (example_message 3 [99])), WsMessage 0 (Some (example_message 2 [120])),
             WsMessage 0 (Some (example_message 4 [100]))])))
   \<and> map msg_id (messages (run
         (FetchSettled (Response True (Some [example_message 1 [97], example_message 2 [98]])) #
          [WsMessage 0 (Some (example_message 3 [99])), WsMessage 0 (Some (example_message 2 [120])),
           WsMessage 0 (Some (example_message 4 [100]))])
         example_session)) = [1, 2, 3, 4]"
proof -
  let ?evs = "[WsMessage 0 (Some (example_message 3 [99])), WsMessage 0 (Some (example_message 2 [120])),
      WsMessage 0 (Some (example_message 4 [100]))]"
  let ?data = "[example_message 1 [97], example_message 2 [98]]"
  have h: "list_all (\<lambda>e. \<not> installs_history e) ?evs"
    by simp
  have f: "fetch_settled example_session < length (fetch_log example_session)"
    by code_simp
  from live_append_order [OF h, of example_session ?data] f
  have "\<exists>ys. messages (run (FetchSettled (Response True (Some ?data)) # ?evs) example_session)
        = ?data @ ys \<and> subseq ys (concat (map live_of ?evs))"
    by blast
  moreover have "map msg_id (messages (run (FetchSettled (Response True (Some ?data)) # ?evs)
      example_session)) = [1, 2, 3, 4]"
    by code_simp
  ultimately show ?thesis using h f by blast
qed

text \<open>
  The claim as written has a late history result keep the live messages appended before
  it. Here identifier 2 arrives live and is displayed; the history request then completes
  with \<open>[1]\<close>, and identifier 2 is gone.
\<close>

theorem late_history_counterexample:
  "example_message 2 [98] \<in> set (messages (run
       [WsMessage 0 (Some (example_message 2 [98]))] example_session))
   \<and> example_message 2 [98] \<notin> set (messages (run
       [WsMessage 0 (Some (example_message 2 [98])),
        FetchSettled (Response True (Some [example_message 1 [97]]))] example_session))"
  by code_simp

text \<open>Which version of an identifier the list shows after a series of live messages.\<close>

lemma find_avoid_duplicates:
  "find (\<lambda>x. msg_id x = k) (avoid_duplicates m prev) =
     (case find (\<lambda>x. msg_id x = k) prev of
        Some x \<Rightarrow> Some x
      | None \<Rightarrow> if msg_id m = k then Some m else None)"
proof (cases "msg_id m \<in> msg_id ` set prev")
  case True
  then show ?thesis
    by (auto simp: avoid_duplicates_eq find_None_iff split: option.splits)
next
  case False
  have "find P (xs @ [y]) =
      (case find P xs of Some x \<Rightarrow> Some x | None \<Rightarrow> if P y then Some y else None)"
    for P :: "Message \<Rightarrow> bool" and xs y
    by (induction xs) auto
  with False show ?thesis
    by (simp add: avoid_duplicates_eq)
qed

lemma find_fold_onmessage:
  "find (\<lambda>x. msg_id x = k) (messages (fold ws_onmessage (map Some ms) s)) =
     (case find (\<lambda>x. msg_id x = k) (messages s) of
        Some x \<Rightarrow> Some x
      | None \<Rightarrow> find (\<lambda>x. msg_id x = k) ms)"
  by (induction ms arbitrary: s)
     (auto simp: ws_onmessage_def find_avoid_duplicates split: option.splits)

text \<open>
  C10. Duplicate suppression looks at the identifier only. When the list holds an entry
  with the identifier of the inbound message, the handler changes nothing, whatever the
  other fields of the inbound message are. So after any series of live messages the
  entry shown for an identifier is the one the list held before, or else the first of
  the series with that identifier.
\<close>

theorem duplicate_id_keeps_first_version:
  "((\<exists>x \<in> set (messages s). msg_id x = msg_id newMsg) \<longrightarrow> ws_onmessage (Some newMsg) s = s)
   \<and> find (\<lambda>x. msg_id x = k) (messages (fold ws_onmessage (map Some ms) s)) =
       (case find (\<lambda>x. msg_id x = k) (messages s) of
          Some x \<Rightarrow> Some x
        | None \<Rightarrow> find (\<lambda>x. msg_id x = k) ms)"
proof (intro conjI impI)
  assume "\<exists>x \<in> set (messages s). msg_id x = msg_id newMsg"
  then have "msg_id newMsg \<in> msg_id ` set (messages s)"
    by (metis imageI)
  then show "ws_onmessage (Some newMsg) s = s"
    by (simp add: ws_onmessage_def avoid_duplicates_eq)
next
  show "find (\<lambda>x. msg_id x = k) (messages (fold ws_onmessage (map Some ms) s)) =
       (case find (\<lambda>x. msg_id x = k) (messages s) of
          Some x \<Rightarrow> Some x
        | None \<Rightarrow> find (\<lambda>x. msg_id x = k) ms)"
    by (rule find_fold_onmessage)
qed

text \<open>A run of it: identifier 5 is in the list with one text and arrives with another.\<close>

theorem duplicate_id_keeps_first_version_witness:
  "example_message 5 [97] \<in> set (messages (run
       [WsMessage 0 (Some (example_message 5 [97]))] example_session))
   \<and> msg_id (example_message 5 [97]) = msg_id (example_message 5 [98])
   \<and> example_message 5 [97] \<noteq> example_message 5 [98]
   \<and> ws_onmessage (Some (example_message 5 [98]))
        (run [WsMessage 0 (Some (example_message 5 [97]))] example_session)
      = run [WsMessage 0 (Some (example_message 5 [97]))] example_session"
proof -
  let ?s = "run [WsMessage 0 (Some (example_message 5 [97]))] example_session"
  have m: "example_message 5 [97] \<in> set (messages ?s)"
    by code_simp
  have i: "msg_id (example_message 5 [97]) = msg_id (example_message 5 [98])"
    by (simp add: example_message_def)
  have d: "example_message 5 [97] \<noteq> example_message 5 [98]"
    by (simp add: example_message_def)
  from m i have "\<exists>x \<in> set (messages ?s). msg_id x = msg_id (example_message 5 [98])"
    by blast
  with duplicate_id_keeps_first_version [of ?s "example_message 5 [98]"]
  have "ws_onmessage (Some (example_message 5 [98])) ?s = ?s"
    by blast
  with m i d show ?thesis by blast
qed

section \<open>The history request\<close>

lemma fetch_log_run:
  "length (fetch_log (run evs s)) = length (fetch_log s) + length (filter is_activation evs)"
  by (induction evs arbitrary: s)
     (auto simp: run_Nil run_Cons fetch_log_step split: event.splits)

text \<open>
  C6. When the history request completes with a success status and a body, the message
  list becomes the returned sequence and nothing else changes. When the request is
  rejected, answers with another status, or its body cannot be decoded, the state is
  left as it was, and nothing is raised. Each run of the effect issues one request, and
  nothing else issues one: over any events, the requests issued are as many as the runs
  of the effect.
\<close>

theorem history_fetch_replaces_or_keeps:
  "fetchInitialMessages_settled (Response True (Some data)) s = s\<lparr>messages := data\<rparr>
   \<and> fetchInitialMessages_settled NetworkError s = s
   \<and> fetchInitialMessages_settled (Response False body) s = s
   \<and> fetchInitialMessages_settled (Response True None) s = s
   \<and> fetch_log (step (EffectRun g) s) = fetch_log s @ [(g, token s)]
   \<and> length (fetch_log (run evs s)) = length (fetch_log s) + length (filter is_activation evs)"
  by (simp add: fetch_log_step fetch_log_run del: step.simps)

text \<open>
  Runs of it: a result is installed; a rejection and a status that is not a success keep
  the live message that was there; after reconnecting twice and one failed history
  request, still only the request of the activation has been issued.
\<close>

theorem history_fetch_replaces_or_keeps_witness:
  "messages (run [FetchSettled (Response True (Some [example_message 1 [97]]))] example_session)
     = [example_message 1 [97]]
   \<and> messages (run [WsMessage 0 (Some (example_message 2 [98])), FetchSettled NetworkError]
        example_session) = [example_message 2 [98]]
   \<and> messages (run [WsMessage 0 (Some (example_message 2 [98])),
        FetchSettled (Response False (Some [example_message 1 [97]]))] example_session)
     = [example_message 2 [98]]
   \<and> length (fetch_log (run [WsClose 0, TimerFired 1, WsOpen 1, FetchSettled NetworkError,
        WsError 1, WsClose 1, TimerFired 2] example_session)) = 1"
proof -
  have 1: "length (fetch_log example_session) = 1"
    by code_simp
  have 2: "length (filter is_activation [WsClose 0, TimerFired 1, WsOpen 1,
      FetchSettled NetworkError, WsError 1, WsClose 1, TimerFired 2]) = 0"
    by simp
  have "length (fetch_log (run [WsClose 0, TimerFired 1, WsOpen 1, FetchSettled NetworkError,
        WsError 1, WsClose 1, TimerFired 2] example_session)) = 1"
    using history_fetch_replaces_or_keeps [where s = example_session and evs =
      "[WsClose 0, TimerFired 1, WsOpen 1, FetchSettled NetworkError, WsError 1, WsClose 1,
        TimerFired 2]"] 1 2
    by simp
  moreover have "messages (run [FetchSettled (Response True (Some [example_message 1 [97]]))]
      example_session) = [example_message 1 [97]]"
    by code_simp
  moreover have "messages (run [WsMessage 0 (Some (example_message 2 [98])),
      FetchSettled NetworkError] example_session) = [example_message 2 [98]]"
    by code_simp
  moreover have "messages (run [WsMessage 0 (Some (example_message 2 [98])),
        FetchSettled (Response False (Some [example_message 1 [97]]))] example_session)
     = [example_message 2 [98]]"
    by code_simp
  ultimately show ?thesis by blast
qed

section \<open>Sending\<close>

text \<open>A text trims to nothing exactly when it consists of white space.\<close>

lemma js_trim_empty_iff: "js_trim t = [] \<longleftrightarrow> list_all is_white_space t"
proof (cases "dropWhile is_white_space t")
  case Nil
  have "js_trim t = []"
    unfolding js_trim_def Nil by simp
  moreover from Nil have "list_all is_white_space t"
    by (simp add: list_all_iff)
  ultimately show ?thesis by simp
next
  case (Cons c cs)
  then have "\<not> is_white_space c"
    using hd_dropWhile [of is_white_space t] by simp
  moreover have "c \<in> set t"
    using Cons set_dropWhileD [of c is_white_space t] by simp
  ultimately show ?thesis
    using Cons by (auto simp: js_trim_def list_all_iff dropWhile_eq_Nil_conv)
qed

text \<open>
  C7. A submit while the text is empty after trimming, or while \<open>wsRef\<close> is null, or
  while the status is not \<open>connected\<close>, returns at the guard: the handler returns
  normally (\<open>Inr\<close>, nothing is thrown) and the state after it is the state before it, so
  nothing was handed to a socket.
\<close>

theorem send_gated_noop:
  assumes "js_trim (newMessage s) = [] \<or> wsRef s = None \<or> connectionStatus s \<noteq> Connected"
  shows "handleSendMessage s = Inr s \<and> step Submit s = s"
  using assms by (auto simp: handleSendMessage_def onSubmit_def)

text \<open>A run of it: three spaces are submitted on the open connection.\<close>

theorem send_gated_noop_witness:
  "js_trim (newMessage (run [InputChange [32, 32, 32]] example_session)) = []
   \<and> wsRef (run [InputChange [32, 32, 32]] example_session) = Some 0
   \<and> connectionStatus (run [InputChange [32, 32, 32]] example_session) = Connected
   \<and> step Submit (run [InputChange [32, 32, 32]] example_session)
       = run [InputChange [32, 32, 32]] example_session
   \<and> sent (step Submit (run [InputChange [32, 32, 32]] example_session)) = []"
proof -
  let ?s = "run [InputChange [32, 32, 32]] example_session"
  have h: "js_trim (newMessage ?s) = []"
    by code_simp
  then have "js_trim (newMessage ?s) = [] \<or> wsRef ?s = None \<or> connectionStatus ?s \<noteq> Connected"
    by blast
  from send_gated_noop [OF this] have n: "step Submit ?s = ?s"
    by (rule conjunct2)
  have "wsRef ?s = Some 0" "connectionStatus ?s = Connected" "sent ?s = []"
    by code_simp+
  with h n show ?thesis by simp
qed





section \<open>Connecting\<close>

text \<open>
  C5. With no token in local storage, or the empty one, \<open>connectWebSocket\<close> sets the
  status to \<open>error\<close> and returns: it throws nothing and changes nothing else. So the
  activation creates no socket, sets no timer and leaves \<open>wsRef\<close> as it was.
\<close>

theorem missing_token_no_connection:
  assumes "token s = None \<or> token s = Some []"
  shows "connectWebSocket g s = s\<lparr>connectionStatus := Error\<rparr>
       \<and> sockets (step (EffectRun g) s) = sockets s
       \<and> wsRef (step (EffectRun g) s) = wsRef s
       \<and> timers (step (EffectRun g) s) = timers s
       \<and> connectionStatus (step (EffectRun g) s) = Error"
  using assms by (auto simp: handler_defs)

text \<open>A run of it: the component is mounted while local storage holds the empty token.\<close>

theorem missing_token_no_connection_witness:
  "(token (init (Some [])) = None \<or> token (init (Some [])) = Some [])
   \<and> connectWebSocket 42 (init (Some [])) = (init (Some []))\<lparr>connectionStatus := Error\<rparr>
   \<and> sockets (step (EffectRun 42) (init (Some []))) = []
   \<and> wsRef (step (EffectRun 42) (init (Some []))) = None
   \<and> connectionStatus (step (EffectRun 42) (init (Some []))) = Error"
proof -
  have h: "token (init (Some [])) = None \<or> token (init (Some [])) = Some []"
    by (simp add: init_def)
  from missing_token_no_connection [OF h, of 42] h show ?thesis
    by (simp add: init_def)
qed

subsection \<open>What each callback does to the sockets and the timers\<close>

lemma ws_onclose_effect:
  "ws_onclose g s =
     s\<lparr>connectionStatus := Disconnected, wsRef := None,
       timers := timers s @ [\<lparr>timer_id = next_timer s, delay = 3000, timer_group = g\<rparr>],
       next_timer := Suc (next_timer s), reconnectTimeoutRef := Some (next_timer s)\<rparr>"
  by (simp add: ws_onclose_def setTimeout_def)

lemma ws_onopen_effect:
  "connectionStatus (ws_onopen s) = Connected
   \<and> reconnectTimeoutRef (ws_onopen s) = None
   \<and> (reconnectTimeoutRef s = Some t \<longrightarrow> t \<notin> timer_id ` set (timers (ws_onopen s)))
   \<and> sockets (ws_onopen s) = sockets s \<and> wsRef (ws_onopen s) = wsRef s"
  by (auto simp: ws_onopen_def Let_def clearTimeout_def split: option.splits)

lemma connectWebSocket_effect:
  assumes "token s = Some t" and "t \<noteq> []"
  shows "connectionStatus (connectWebSocket g s) = Connecting"
    and "wsRef (connectWebSocket g s) = Some (length (sockets s))"
    and "sockets (connectWebSocket g s) =
           (case wsRef s of None \<Rightarrow> sockets s | Some i \<Rightarrow> ws_close i (sockets s)) @
           [\<lparr>ws_group = g, ws_token = t, readyState = CONNECTING\<rparr>]"
  using assms by (auto simp: connectWebSocket_def Let_def ws_close_def split: option.splits)

lemma useEffect_cleanup_effect:
  "sockets (useEffect_cleanup s) =
     (case wsRef s of None \<Rightarrow> sockets s | Some i \<Rightarrow> ws_close i (sockets s))
   \<and> timers (useEffect_cleanup s) =
     (case reconnectTimeoutRef s of None \<Rightarrow> timers s | Some t \<Rightarrow> clearTimeout t (timers s))
   \<and> wsRef (useEffect_cleanup s) = wsRef s
   \<and> reconnectTimeoutRef (useEffect_cleanup s) = reconnectTimeoutRef s"
  by (auto simp: useEffect_cleanup_def Let_def split: option.splits)

subsection \<open>A component whose effect runs once\<close>

lemma length_ws_close [simp]: "length (ws_close i socks) = length socks"
  by (simp add: ws_close_def)

lemma length_set_ready [simp]: "length (set_ready i r socks) = length socks"
  by (simp add: set_ready_def)

lemma closed_ws_close [simp]:
  "j < length socks \<Longrightarrow>
   readyState (ws_close i socks ! j) = CLOSED \<longleftrightarrow> readyState (socks ! j) = CLOSED"
  by (auto simp: ws_close_def nth_list_update)

lemma ready_set_ready:
  "j < length socks \<Longrightarrow>
   readyState (set_ready i r socks ! j) = (if j = i then r else readyState (socks ! j))"
  by (simp add: set_ready_def nth_list_update)

lemma clearTimeout_last:
  "length ts \<le> 1 \<Longrightarrow> find (\<lambda>x. timer_id x = t) ts = Some x \<Longrightarrow> clearTimeout t ts = []"
  by (cases ts) (auto simp: clearTimeout_def split: if_splits)

lemma clearTimeout_Nil [simp]: "clearTimeout t [] = []"
  by (simp add: clearTimeout_def)

lemma one_connection_first_run: "one_connection (step (EffectRun g) (init tok))"
  by (auto simp: one_connection_def init_def handler_defs Let_def nth_append
        split: option.splits)

lemma one_connection_step:
  assumes "one_connection s" and "\<not> is_activation e"
  shows "one_connection (step e s)"
proof (cases e)
  case (EffectRun g)
  with assms show ?thesis by simp
next
  case EffectCleanup
  with assms(1) show ?thesis
    by (auto simp: one_connection_def handler_defs Let_def clearTimeout_def
          split: option.splits intro: le_trans [OF length_filter_le])
next
  case (FetchSettled r)
  have "sockets (fetchInitialMessages_settled r s') = sockets s'"
       "timers (fetchInitialMessages_settled r s') = timers s'"
       "wsRef (fetchInitialMessages_settled r s') = wsRef s'" for s'
    by (cases r; auto split: option.splits)+
  with assms(1) FetchSettled show ?thesis
    by (auto simp: one_connection_def)
next
  case (WsOpen i)
  with assms(1) show ?thesis
    by (auto simp: one_connection_def handler_defs Let_def ready_set_ready
          split: option.splits if_splits)
next
  case (WsMessage i f)
  with assms(1) show ?thesis
    by (auto simp: one_connection_def handler_defs split: option.splits)
next
  case (WsError i)
  with assms(1) show ?thesis
    by (auto simp: one_connection_def handler_defs)
next
  case (WsClose i)
  with assms(1) show ?thesis
    by (auto simp: one_connection_def handler_defs Let_def ready_set_ready
          split: option.splits if_splits)
       (metis option.inject)
next
  case (TimerFired t)
  with assms(1) show ?thesis
    by (auto simp: one_connection_def handler_defs Let_def nth_append clearTimeout_last
          split: option.splits if_splits)
next
  case (InputChange v)
  with assms(1) show ?thesis
    by (auto simp: one_connection_def)
next
  case Submit
  with assms(1) show ?thesis
    by (simp add: one_connection_def)
qed

lemma one_connection_run:
  "one_connection s \<Longrightarrow> list_all (\<lambda>e. \<not> is_activation e) evs \<Longrightarrow> one_connection (run evs s)"
  by (induction evs arbitrary: s) (simp_all add: run_Nil run_Cons one_connection_step del: step.simps)

text \<open>
  From mount on, as long as the effect does not run a second time (its cleanup may run),
  the refs track the sockets and timers as meant: at every point at most one
  reconnection timer is pending and at most one socket is not closed.
\<close>

lemma single_activation_one_connection:
  assumes "list_all (\<lambda>e. \<not> is_activation e) evs"
  shows "one_connection (run (EffectRun g # evs) (init tok))"
  unfolding run_Cons using one_connection_first_run assms by (rule one_connection_run)

lemma single_activation_one_timer:
  assumes "list_all (\<lambda>e. \<not> is_activation e) evs"
  shows "length (timers (run (EffectRun g # evs) (init tok))) \<le> 1"
  using single_activation_one_connection [OF assms] by (simp add: one_connection_def)

lemma single_activation_one_socket:
  assumes "list_all (\<lambda>e. \<not> is_activation e) evs"
    and "i < length (sockets (run (EffectRun g # evs) (init tok)))"
    and "j < length (sockets (run (EffectRun g # evs) (init tok)))"
    and "readyState (sockets (run (EffectRun g # evs) (init tok)) ! i) \<noteq> CLOSED"
    and "readyState (sockets (run (EffectRun g # evs) (init tok)) ! j) \<noteq> CLOSED"
  shows "i = j"
  using single_activation_one_connection [OF assms(1), of g tok] assms(2-5)
  unfolding one_connection_def by (metis option.inject)

text \<open>
  At every point \<open>wsRef\<close> is null or names a socket that was created, so the submit
  handler always has a socket to call \<open>send\<close> on.
\<close>

lemma wsRef_step:
  assumes "\<forall>i. wsRef s = Some i \<longrightarrow> i < length (sockets s)"
  shows "\<forall>i. wsRef (step e s) = Some i \<longrightarrow> i < length (sockets (step e s))"
proof (cases e)
  case (EffectRun g)
  with assms show ?thesis
    by (auto simp: handler_defs Let_def split: option.splits)
next
  case EffectCleanup
  with assms show ?thesis
    by (auto simp: handler_defs Let_def split: option.splits)
next
  case (FetchSettled r)
  with assms show ?thesis
    by (cases r) (auto split: option.splits)
next
  case (WsOpen i)
  with assms show ?thesis
    by (auto simp: handler_defs Let_def split: option.splits)
next
  case (WsMessage i f)
  with assms show ?thesis
    by (auto simp: handler_defs split: option.splits)
next
  case (WsError i)
  with assms show ?thesis
    by (auto simp: handler_defs)
next
  case (WsClose i)
  with assms show ?thesis
    by (auto simp: handler_defs Let_def)
next
  case (TimerFired t)
  with assms show ?thesis
    by (auto simp: handler_defs Let_def split: option.splits)
next
  case (InputChange v)
  with assms show ?thesis by simp
next
  case Submit
  with assms show ?thesis by simp
qed

lemma wsRef_run:
  "\<forall>i. wsRef s = Some i \<longrightarrow> i < length (sockets s) \<Longrightarrow>
   \<forall>i. wsRef (run evs s) = Some i \<longrightarrow> i < length (sockets (run evs s))"
proof (induction evs arbitrary: s)
  case Nil
  then show ?case by (simp add: run_Nil)
next
  case (Cons e evs)
  from Cons.IH [OF wsRef_step [OF Cons.prems]] show ?case
    by (simp add: run_Cons del: step.simps)
qed

lemma wsRef_names_a_socket:
  "wsRef (run evs (init tok)) = Some i \<Longrightarrow> i < length (sockets (run evs (init tok)))"
  using wsRef_run [of "init tok" evs] by (simp add: init_def)

subsection \<open>A component whose effect runs again\<close>

text \<open>
  The cleanup calls \<open>close()\<close> on the current socket and leaves the socket's handlers
  in place, so the close event that follows still runs \<open>ws.onclose\<close>: it sets the status,
  clears \<open>wsRef\<close> whatever socket that names by then, and sets a timer that reconnects
  with the group of the closed socket. The three runs below start from the component
  mounted for group 42 with its socket open.
\<close>

text \<open>
  C4 (the code departs from the claim). The claim: after teardown no further connection
  attempt is made, and close events and timers in flight at teardown are invalidated.
  The run: the cleanup closes socket 0 and no timer is pending; the close event of socket
  0 then sets timer 1; when timer 1 fires, \<open>connectWebSocket\<close> creates socket 1.
\<close>

theorem reconnect_after_teardown:
  "sockets (run [EffectCleanup] example_session) =
     [\<lparr>ws_group = 42, ws_token = [116], readyState = CLOSING\<rparr>]
   \<and> timers (run [EffectCleanup] example_session) = []
   \<and> timers (run [EffectCleanup, WsClose 0] example_session) =
       [\<lparr>timer_id = 1, delay = 3000, timer_group = 42\<rparr>]
   \<and> sockets (run [EffectCleanup, WsClose 0, TimerFired 1] example_session) =
       [\<lparr>ws_group = 42, ws_token = [116], readyState = CLOSED\<rparr>,
        \<lparr>ws_group = 42, ws_token = [116], readyState = CONNECTING\<rparr>]"
  by code_simp

text \<open>
  C3 (the code departs from the claim). The claim: a close event schedules one
  reconnection and cancels one scheduled before, so that never more than one timer is
  pending. The run: the group changes to 43, so the cleanup runs and the effect runs
  again, creating socket 1; the close event of socket 0 sets timer 1; socket 1 fails and
  its close event sets timer 2 without cancelling timer 1. Two timers are pending, and
  \<open>reconnectTimeoutRef\<close> holds the second only.
\<close>

theorem two_reconnect_timers_pending:
  "timers (run [EffectCleanup, EffectRun 43, WsClose 0, WsError 1, WsClose 1] example_session) =
     [\<lparr>timer_id = 1, delay = 3000, timer_group = 42\<rparr>,
      \<lparr>timer_id = 2, delay = 3000, timer_group = 43\<rparr>]
   \<and> reconnectTimeoutRef
       (run [EffectCleanup, EffectRun 43, WsClose 0, WsError 1, WsClose 1] example_session) = Some 2"
  by code_simp

text \<open>
  C9 (the code departs from the claim). The claim: connecting closes the previous
  connection first, so that at most one connection is live. The run: the group changes
  to 43 and socket 1 opens; the close event of socket 0 then clears \<open>wsRef\<close>, which
  named socket 1, and sets timer 1; when timer 1 fires, \<open>connectWebSocket\<close> finds
  \<open>wsRef\<close> null, closes nothing and creates socket 2, which opens. Sockets 1 and 2 are
  open together, one for each group.
\<close>

theorem two_open_connections:
  "sockets (run [EffectCleanup, EffectRun 43, WsOpen 1, WsClose 0, TimerFired 1, WsOpen 2]
       example_session) =
     [\<lparr>ws_group = 42, ws_token = [116], readyState = CLOSED\<rparr>,
      \<lparr>ws_group = 43, ws_token = [116], readyState = OPEN\<rparr>,
      \<lparr>ws_group = 42, ws_token = [116], readyState = OPEN\<rparr>]
   \<and> wsRef (run [EffectCleanup, EffectRun 43, WsOpen 1, WsClose 0, TimerFired 1, WsOpen 2]
       example_session) = Some 2"
  by code_simp

end
